theory Spec2Isabelle
  imports Main
begin

text \<open>
  A shallow embedding of \<open>index.js\<close> of the dead link checker: the module-level
  variables are a record that every function takes and returns, \<open>checkLinks\<close> and the
  worker loop of \<open>processQueue\<close> are cut at their \<open>await\<close>s into atomic steps, and a run
  is the sequence of steps that a schedule picks. The platform (\<open>fetch\<close>, the \<open>URL\<close>
  constructor) is a parameter.
\<close>

section \<open>String primitives used by index.js\<close>

text \<open>
  JavaScript strings are modelled as \<open>string\<close>; the hrefs, URLs and messages of the
  development are ASCII. Each definition is the \<open>String.prototype\<close> method of the same name.
\<close>

definition startsWith :: "string \<Rightarrow> string \<Rightarrow> bool" where
  "startsWith s p = (take (length p) s = p)"

definition endsWith :: "string \<Rightarrow> string \<Rightarrow> bool" where
  "endsWith s p = (length p \<le> length s \<and> drop (length s - length p) s = p)"

fun includes_str :: "string \<Rightarrow> string \<Rightarrow> bool" where
  "includes_str [] p = (p = [])"
| "includes_str (c # cs) p = (startsWith (c # cs) p \<or> includes_str cs p)"

definition is_space :: "char \<Rightarrow> bool" where
  \<comment> \<open>the ASCII white space and line terminators that \<open>trim\<close> removes\<close>
  "is_space c = (c \<in> {CHR 0x20, CHR 0x09, CHR 0x0A, CHR 0x0B, CHR 0x0C, CHR 0x0D})"

definition trim :: "string \<Rightarrow> string" where
  "trim s = rev (dropWhile is_space (rev (dropWhile is_space s)))"

definition split_hash_0 :: "string \<Rightarrow> string" where
  \<comment> \<open>\<open>href.split("#")[0]\<close>: the part before the first \<open>#\<close>\<close>
  "split_hash_0 s = takeWhile (\<lambda>c. c \<noteq> CHR ''#'') s"

definition truthy :: "string option \<Rightarrow> bool" where
  \<comment> \<open>\<open>null\<close>, \<open>undefined\<close> (both \<open>None\<close>) and the empty string are falsy\<close>
  "truthy x = (x \<noteq> None \<and> x \<noteq> Some [])"

fun digit_char :: "nat \<Rightarrow> char" where
  "digit_char n = (''0123456789'' ! (n mod 10))"

fun toString :: "nat \<Rightarrow> string" where
  \<comment> \<open>\<open>Number.prototype.toString\<close> on a non-negative integer\<close>
  "toString n = (if n < 10 then [digit_char n] else toString (n div 10) @ [digit_char n])"

declare toString.simps [simp del]


section \<open>Data model\<close>

text \<open>
  An entry of \<open>checkedLinks\<close> or \<open>deadLinks\<close> is an object \<open>{url, status, error}\<close>;
  \<open>status\<close> is the number \<open>response.status\<close> or the string \<open>"FETCH_ERROR"\<close>; \<open>error\<close>
  is absent on the entries built without it.
\<close>

datatype link_status = Code nat | FETCH_ERROR

record outcome =
  url :: string
  status :: link_status
  error :: "string option"

text \<open>
  What \<open>checkLinks\<close> reads of a \<open>Response\<close>: \<open>response.status\<close>, the two headers it
  asks for (\<open>headers.get\<close> gives \<open>null\<close>, here \<open>None\<close>, for a missing header) and the
  result of \<open>await response.text()\<close> followed by
  \<open>new JSDOM(html).window.document.querySelectorAll("a")\<close>: either the promise rejects
  with a message (\<open>Inl\<close>), or the document has a list of anchors, each with the value of
  \<open>getAttribute("href")\<close> (\<open>None\<close> for \<open>null\<close>).
\<close>

record response =
  resp_status :: nat
  resp_location :: "string option"
  resp_content_type :: "string option"
  resp_text :: "string + string option list"

text \<open>
  The environment of a run: the platform functions the program calls.
  \<^item> \<open>fetch u\<close> is the result of \<open>await fetch(u, {redirect: "manual"})\<close>: \<open>Inl m\<close> when the
    promise rejects with an error of message \<open>m\<close>, \<open>Inr r\<close> when it resolves to \<open>r\<close>;
  \<^item> \<open>URL_href rel base\<close> is \<open>new URL(rel, base).href\<close>, \<open>None\<close> when the constructor
    throws;
  \<^item> \<open>URL_origin u\<close> is \<open>new URL(u).origin\<close>, \<open>None\<close> when the constructor throws.
\<close>

record env =
  fetch :: "string \<Rightarrow> string + response"
  URL_href :: "string \<Rightarrow> string \<Rightarrow> string option"
  URL_origin :: "string \<Rightarrow> string option"

text \<open>The errors that reach a \<open>catch\<close>, other than rejected fetches: name and message.\<close>

datatype js_error = TypeError string | RangeError string

definition invalid_url_message :: string where
  \<comment> \<open>\<open>error.message\<close> of the \<open>TypeError\<close> that \<open>new URL\<close> throws\<close>
  "invalid_url_message = ''Invalid URL''"

text \<open>
  The closures pushed on \<open>queue\<close>: \<open>() => checkLinks(url, origin)\<close> (lines 52, 97 and 194)
  and the external check of lines 101 to 119, which captures \<open>link\<close>.
\<close>

datatype task = CheckLinks string string | ExternalCheck string

text \<open>The module-level variables of index.js (lines 8 to 17).\<close>

record globals =
  deadLinks :: "outcome list"
  visited :: "string set"
  queuedLinks :: "string set"
  checkedLinks :: "outcome list"
  checked :: nat
  totalLinks :: nat
  queue :: "task list"

definition globals0 :: globals where
  "globals0 = \<lparr>deadLinks = [], visited = {}, queuedLinks = {}, checkedLinks = [],
     checked = 0, totalLinks = 0, queue = []\<rparr>"


section \<open>checkLinks\<close>

text \<open>
  Where a worker is suspended. JavaScript runs one continuation at a time, so the code
  between two \<open>await\<close>s is one atomic step on the globals.
  \<^item> \<open>LoopHead\<close>: about to evaluate \<open>queue.length > 0\<close> (line 137), when the worker is
    created or when \<open>await setTimeout(delay)\<close> returns;
  \<^item> \<open>AwaitFetch url origin\<close>: in \<open>checkLinks(url, origin)\<close> at \<open>await fetch\<close> (line 29);
  \<^item> \<open>AwaitText url origin r\<close>: in \<open>checkLinks\<close> at \<open>await response.text()\<close> (line 62);
  \<^item> \<open>AwaitFetchExt link\<close>: in the external check at \<open>await fetch\<close> (line 103);
  \<^item> \<open>Done\<close>: the loop has ended and the worker's promise is resolved.
\<close>

datatype pc =
    LoopHead
  | AwaitFetch string string
  | AwaitText string string response
  | AwaitFetchExt string
  | Done

definition catch_block :: "string \<Rightarrow> string \<Rightarrow> globals \<Rightarrow> globals" where
  \<comment> \<open>lines 124 to 127\<close>
  "catch_block u m g =
     g\<lparr>checkedLinks := checkedLinks g @ [\<lparr>url = u, status = FETCH_ERROR, error = Some m\<rparr>],
       deadLinks := deadLinks g @ [\<lparr>url = u, status = FETCH_ERROR, error = Some m\<rparr>]\<rparr>"

definition accepted_href :: "string \<Rightarrow> bool" where
  \<comment> \<open>the condition of lines 69 to 75\<close>
  "accepted_href href =
     (href \<noteq> [] \<and> \<not> startsWith href ''mailto:'' \<and> \<not> startsWith href ''javascript:''
      \<and> \<not> startsWith href ''#'' \<and> href \<noteq> ''about:blank'')"

definition normalizedLink :: "env \<Rightarrow> string \<Rightarrow> string option \<Rightarrow> string option" where
  \<comment> \<open>the body of the \<open>reduce\<close> callback, lines 67 to 84, for an anchor whose
      \<open>getAttribute("href")\<close> is \<open>a\<close>: \<open>Some\<close> what is pushed on \<open>acc\<close>, \<open>None\<close> when
      nothing is pushed\<close>
  "normalizedLink e u a =
     (let href = (case a of None \<Rightarrow> [] | Some h \<Rightarrow> trim h) in
      if accepted_href href
      then (case URL_href e (split_hash_0 href) u of
              None \<Rightarrow> None
            | Some resolvedLink \<Rightarrow>
                Some (if endsWith resolvedLink ''/'' then butlast resolvedLink
                      else resolvedLink))
      else None)"

definition extract_links :: "env \<Rightarrow> string \<Rightarrow> string option list \<Rightarrow> string list" where
  \<comment> \<open>\<open>links\<close>, lines 65 to 88\<close>
  "extract_links e u anchors = List.map_filter (normalizedLink e u) anchors"

text \<open>
  The loop of lines 90 to 123. \<open>new URL(link)\<close> on line 94 may throw; the loop then stops
  and the message goes to the \<open>catch\<close> of line 124 (\<open>Some m\<close> in the result).
\<close>

fun enqueue_links :: "env \<Rightarrow> string \<Rightarrow> string list \<Rightarrow> globals \<Rightarrow> globals \<times> string option" where
  "enqueue_links e origin [] g = (g, None)"
| "enqueue_links e origin (link # links) g =
     (if link \<in> queuedLinks g then enqueue_links e origin links g
      else
        let g1 = g\<lparr>queuedLinks := insert link (queuedLinks g)\<rparr> in
        case URL_origin e link of
          None \<Rightarrow> (g1, Some invalid_url_message)
        | Some linkOrigin \<Rightarrow>
            if linkOrigin = origin
            then enqueue_links e origin links
                   (g1\<lparr>queue := queue g1 @ [CheckLinks link origin],
                       totalLinks := totalLinks g1 + 1\<rparr>)
            else enqueue_links e origin links
                   (g1\<lparr>queue := queue g1 @ [ExternalCheck link],
                       totalLinks := totalLinks g1 + 1\<rparr>))"

definition checkLinks_start :: "string \<Rightarrow> string \<Rightarrow> globals \<Rightarrow> globals \<times> pc" where
  \<comment> \<open>lines 25 to 29, up to the first \<open>await\<close>; a returned task leaves the worker at
      \<open>await setTimeout(delay)\<close>, whose continuation is the loop head\<close>
  "checkLinks_start u origin g =
     (if u \<in> visited g then (g, LoopHead)
      else (g\<lparr>visited := insert u (visited g)\<rparr>, AwaitFetch u origin))"

definition checkLinks_fetched :: "env \<Rightarrow> string \<Rightarrow> string \<Rightarrow> globals \<Rightarrow> globals \<times> pc" where
  \<comment> \<open>lines 29 to 62: from the result of \<open>fetch\<close> to the next \<open>await\<close> or the end of the task\<close>
  "checkLinks_fetched e u origin g =
     (case fetch e u of
        Inl m \<Rightarrow> (catch_block u m g, LoopHead)
      | Inr r \<Rightarrow>
          let g1 = g\<lparr>checked := checked g + 1,
                     checkedLinks := checkedLinks g
                        @ [\<lparr>url = u, status = Code (resp_status r), error = None\<rparr>]\<rparr> in
          if resp_status r \<ge> 400
          then (g1\<lparr>deadLinks := deadLinks g1
                      @ [\<lparr>url = u, status = Code (resp_status r), error = None\<rparr>]\<rparr>, LoopHead)
          else if resp_status r \<ge> 300 \<and> resp_status r < 400
          then (if \<not> truthy (resp_location r)
                then (g1\<lparr>deadLinks := deadLinks g1
                            @ [\<lparr>url = u, status = Code (resp_status r),
                                error = Some ''Redirect with no Location header''\<rparr>]\<rparr>, LoopHead)
                else (case URL_href e (the (resp_location r)) u of
                        None \<Rightarrow> (catch_block u invalid_url_message g1, LoopHead)
                      | Some redirectURL \<Rightarrow>
                          if redirectURL \<notin> queuedLinks g1
                          then (g1\<lparr>queue := queue g1 @ [CheckLinks redirectURL origin],
                                   queuedLinks := insert redirectURL (queuedLinks g1),
                                   totalLinks := totalLinks g1 + 1\<rparr>, LoopHead)
                          else (g1, LoopHead)))
          else if \<not> includes_str (case resp_content_type r of None \<Rightarrow> [] | Some c \<Rightarrow> c)
                      ''text/html''
          then (g1, LoopHead)
          else (g1, AwaitText u origin r))"

definition checkLinks_parsed :: "env \<Rightarrow> string \<Rightarrow> string \<Rightarrow> response \<Rightarrow> globals \<Rightarrow> globals" where
  \<comment> \<open>lines 62 to 127: from the result of \<open>response.text()\<close> to the end of the task\<close>
  "checkLinks_parsed e u origin r g =
     (case resp_text r of
        Inl m \<Rightarrow> catch_block u m g
      | Inr anchors \<Rightarrow>
          (case enqueue_links e origin (extract_links e u anchors) g of
             (g', None) \<Rightarrow> g'
           | (g', Some m) \<Rightarrow> catch_block u m g'))"

definition external_fetched :: "env \<Rightarrow> string \<Rightarrow> globals \<Rightarrow> globals" where
  \<comment> \<open>lines 102 to 118: the external check, from the result of \<open>fetch\<close> to its end\<close>
  "external_fetched e link g =
     (case fetch e link of
        Inl m \<Rightarrow> g\<lparr>deadLinks := deadLinks g
                     @ [\<lparr>url = link, status = FETCH_ERROR, error = Some m\<rparr>]\<rparr>
      | Inr r \<Rightarrow>
          let g1 = g\<lparr>checked := checked g + 1,
                     checkedLinks := checkedLinks g
                        @ [\<lparr>url = link, status = Code (resp_status r), error = None\<rparr>]\<rparr> in
          if resp_status r \<ge> 400
          then g1\<lparr>deadLinks := deadLinks g1
                     @ [\<lparr>url = link, status = Code (resp_status r), error = None\<rparr>]\<rparr>
          else g1)"


section \<open>processQueue\<close>

definition worker_head :: "globals \<Rightarrow> globals \<times> pc" where
  \<comment> \<open>lines 137 to 139: the loop test, \<open>queue.shift()\<close> and the call of the task\<close>
  "worker_head g =
     (case queue g of
        [] \<Rightarrow> (g, Done)
      | t # ts \<Rightarrow>
          (case t of
             CheckLinks u origin \<Rightarrow> checkLinks_start u origin (g\<lparr>queue := ts\<rparr>)
           | ExternalCheck link \<Rightarrow> (g\<lparr>queue := ts\<rparr>, AwaitFetchExt link)))"

fun resume :: "env \<Rightarrow> pc \<Rightarrow> globals \<Rightarrow> globals \<times> pc" where
  \<comment> \<open>one atomic step of a worker: its continuation, up to its next \<open>await\<close>\<close>
  "resume e LoopHead g = worker_head g"
| "resume e (AwaitFetch u origin) g = checkLinks_fetched e u origin g"
| "resume e (AwaitText u origin r) g = (checkLinks_parsed e u origin r g, LoopHead)"
| "resume e (AwaitFetchExt link) g = (external_fetched e link g, LoopHead)"
| "resume e Done g = (g, Done)"

definition step_worker :: "env \<Rightarrow> nat \<Rightarrow> globals \<times> pc list \<Rightarrow> globals \<times> pc list" where
  \<comment> \<open>the event loop runs the continuation of worker \<open>i\<close>; nothing happens when there is
      no such worker or it has ended\<close>
  "step_worker e i c =
     (case c of (g, ws) \<Rightarrow>
        if i < length ws
        then (case resume e (ws ! i) g of (g', p) \<Rightarrow> (g', ws[i := p]))
        else (g, ws))"

fun run_schedule :: "env \<Rightarrow> nat list \<Rightarrow> globals \<times> pc list \<Rightarrow> globals \<times> pc list" where
  "run_schedule e [] c = c"
| "run_schedule e (i # sched) c = run_schedule e sched (step_worker e i c)"

definition array_length :: "int option \<Rightarrow> nat option" where
  \<comment> \<open>the number of elements of \<open>Array.from({length: n}, ...)\<close> on line 136: \<open>NaN\<close>
      (\<open>None\<close>) and negative lengths give the empty array, and a length of \<open>2^32\<close> or more
      is not an array length: \<open>Array.from\<close> throws a \<open>RangeError\<close> (\<open>None\<close> in the result)\<close>
  "array_length n =
     (case n of
        None \<Rightarrow> Some 0
      | Some k \<Rightarrow> if k \<le> 0 then Some 0 else if k < 2 ^ 32 then Some (nat k) else None)"

text \<open>
  The workers of lines 136 to 142. \<open>Array.from({length: n}, async () => ...)\<close> calls the
  worker function \<open>n\<close> times in index order, and each call runs to its first \<open>await\<close>
  before the next one starts: the schedule begins with \<open>[0..<n]\<close>. After that the order in
  which fetches, bodies and timers complete decides which worker continues; \<open>sched\<close> is
  that order.
\<close>

definition workers :: "env \<Rightarrow> nat \<Rightarrow> nat list \<Rightarrow> globals \<Rightarrow> globals \<times> pc list" where
  "workers e n sched g = run_schedule e ([0..<n] @ sched) (g, replicate n LoopHead)"

text \<open>
  \<open>processQueue\<close>, lines 135 to 144: the error that \<open>Array.from\<close> throws, with which the
  promise of \<open>processQueue\<close> rejects before anything has run, or the state that the
  workers have reached under \<open>sched\<close>. \<open>Promise.all(workers)\<close> resolves when every
  worker is \<open>Done\<close>.
\<close>

definition processQueue ::
    "env \<Rightarrow> int option \<Rightarrow> nat list \<Rightarrow> globals \<Rightarrow> js_error + globals \<times> pc list" where
  "processQueue e concurrentRequests sched g =
     (case array_length concurrentRequests of
        None \<Rightarrow> Inl (RangeError ''Invalid array length'')
      | Some n \<Rightarrow> Inr (workers e n sched g))"

definition all_done :: "pc list \<Rightarrow> bool" where
  "all_done ws = list_all (\<lambda>p. p = Done) ws"


section \<open>main\<close>

definition is_digit :: "char \<Rightarrow> bool" where
  "is_digit c = (c \<in> set ''0123456789'')"

definition digit_value :: "char \<Rightarrow> nat" where
  "digit_value c = of_char c - of_char CHR ''0''"

definition parseInt :: "string \<Rightarrow> int option" where
  \<comment> \<open>\<open>Number.parseInt(s, 10)\<close>: white space, a sign, then the longest run of decimal
      digits; \<open>None\<close> is \<open>NaN\<close>\<close>
  "parseInt s =
     (let t = dropWhile is_space s;
          negative = (t \<noteq> [] \<and> hd t = CHR ''-'');
          r = (if t \<noteq> [] \<and> (hd t = CHR ''-'' \<or> hd t = CHR ''+'') then tl t else t);
          ds = takeWhile is_digit r;
          n = foldl (\<lambda>a c. 10 * a + int (digit_value c)) 0 ds
      in if ds = [] then None else Some (if negative then - n else n))"

definition split_eq_1 :: "string \<Rightarrow> string option" where
  \<comment> \<open>\<open>arg.split("=")[1]\<close>: the piece after the first \<open>=\<close>, \<open>None\<close> for \<open>undefined\<close>\<close>
  "split_eq_1 s =
     (case dropWhile (\<lambda>c. c \<noteq> CHR ''='') s of
        [] \<Rightarrow> None
      | _ # rest \<Rightarrow> Some (takeWhile (\<lambda>c. c \<noteq> CHR ''='') rest))"

definition option_arg :: "string \<Rightarrow> string \<Rightarrow> string list \<Rightarrow> string" where
  \<comment> \<open>\<open>args.find((arg) => arg.startsWith(name))?.split("=")[1] || dflt\<close>\<close>
  "option_arg name dflt args =
     (case find (\<lambda>arg. startsWith arg name) args of
        None \<Rightarrow> dflt
      | Some arg \<Rightarrow>
          (case split_eq_1 arg of
             None \<Rightarrow> dflt
           | Some v \<Rightarrow> if v = [] then dflt else v))"

definition concurrentRequests :: "string list \<Rightarrow> int option" where
  \<comment> \<open>lines 176 to 179\<close>
  "concurrentRequests args = parseInt (option_arg ''--concurrent='' ''25'' args)"

definition inputURL :: "string list \<Rightarrow> string option" where
  \<comment> \<open>line 174\<close>
  "inputURL args = find (\<lambda>arg. \<not> startsWith arg ''-'') args"

text \<open>
  What the process leaves behind: the code given to \<open>process.exit\<close> and the arguments of
  the calls of \<open>console.log\<close> and \<open>console.error\<close> in \<open>main\<close>, in order. The handler of
  lines 221 to 224 calls \<open>console.error("An unexpected error occurred:", err)\<close>, which
  prints the text followed by the error object as the platform displays it (its stack);
  the text is the line in \<open>stderr\<close> and the error object is \<open>unexpected\<close>. The colour
  escapes and the emoji of lines 208 and 211 are left out of the strings, and the progress
  line that \<open>updateStatus\<close> rewrites (with \<open>isProcessing\<close>, which only it reads) is not
  part of the model. Neither is time: the value of \<open>--delay\<close> only sets how long a worker
  stays at \<open>await setTimeout(delay)\<close> before its next step.
\<close>

record exit =
  exit_code :: nat
  stdout :: "string list"
  stderr :: "string list"
  unexpected :: "js_error option"

definition status_text :: "link_status \<Rightarrow> string" where
  \<comment> \<open>how a template literal prints \<open>status\<close>\<close>
  "status_text s = (case s of Code n \<Rightarrow> toString n | FETCH_ERROR \<Rightarrow> ''FETCH_ERROR'')"

definition summary_line :: "outcome \<Rightarrow> string" where
  \<comment> \<open>lines 164 and 165\<close>
  "summary_line c =
     ''- '' @ url c @ '' (Status: ''
       @ (if truthy (error c) then ''FETCH_ERROR ('' @ the (error c) @ '')''
          else status_text (status c))
       @ '')''"

definition dead_line :: "outcome \<Rightarrow> string" where
  \<comment> \<open>lines 213 to 215\<close>
  "dead_line d =
     ''- '' @ url d @ '' (Status: '' @ status_text (status d)
       @ (if truthy (error d) then '', Error: '' @ the (error d) else [])
       @ '')''"

definition usage :: string where
  "usage = ''Usage: node dead-link-checker.js <URL> [-v] [--concurrent=<number>] [--delay=<milliseconds>]''"

definition seeded :: "string \<Rightarrow> string \<Rightarrow> globals" where
  \<comment> \<open>the globals after lines 194 to 196\<close>
  "seeded u origin =
     globals0\<lparr>queue := [CheckLinks u origin], queuedLinks := {u}, totalLinks := 1\<rparr>"

definition crawl :: "env \<Rightarrow> string \<Rightarrow> string \<Rightarrow> nat \<Rightarrow> nat list \<Rightarrow> globals \<times> pc list" where
  \<comment> \<open>lines 194 to 199 with \<open>n\<close> workers: the state that they have reached under \<open>sched\<close>\<close>
  "crawl e u origin n sched = workers e n sched (seeded u origin)"

definition report :: "bool \<Rightarrow> string \<Rightarrow> globals \<Rightarrow> exit" where
  \<comment> \<open>lines 193 and 201 to 218\<close>
  "report verbose u g =
     (let out = [''Starting to check links on: '' @ u @ [CHR 0x0A], [CHR 0x0A]]
                @ (if verbose
                   then (CHR 0x0A # ''Summary of checked links:'') # map summary_line (checkedLinks g)
                   else [])
      in if deadLinks g = []
         then \<lparr>exit_code = 0, stdout = out @ [''No dead links found.''], stderr = [],
               unexpected = None\<rparr>
         else \<lparr>exit_code = 1, stdout = out,
               stderr = ''Dead links found:'' # map dead_line (deadLinks g),
               unexpected = None\<rparr>)"

text \<open>
  \<open>main\<close> together with the handler of lines 221 to 224. The result is \<open>None\<close> while
  \<open>await processQueue\<close> has not returned, that is when some worker is not \<open>Done\<close> at the
  end of \<open>sched\<close>. Two statements of \<open>main\<close> can throw: \<open>new URL(inputURL)\<close> on line 192,
  before anything is printed, and \<open>await processQueue\<close> on line 199, when \<open>Array.from\<close>
  has thrown; the tasks catch their own errors.
\<close>

definition main :: "env \<Rightarrow> string list \<Rightarrow> nat list \<Rightarrow> exit option" where
  "main e args sched =
     (if \<not> truthy (inputURL args)
      then Some \<lparr>exit_code = 1, stdout = [], stderr = [usage], unexpected = None\<rparr>
      else
        let u = the (inputURL args) in
        case URL_origin e u of
          None \<Rightarrow> Some \<lparr>exit_code = 1, stdout = [],
                     stderr = [''An unexpected error occurred:''],
                     unexpected = Some (TypeError invalid_url_message)\<rparr>
        | Some origin \<Rightarrow>
            (case processQueue e (concurrentRequests args) sched (seeded u origin) of
               Inl err \<Rightarrow>
                 Some \<lparr>exit_code = 1,
                       stdout = [''Starting to check links on: '' @ u @ [CHR 0x0A]],
                       stderr = [''An unexpected error occurred:''],
                       unexpected = Some err\<rparr>
             | Inr (g, ws) \<Rightarrow>
                 if all_done ws then Some (report (''-v'' \<in> set args) u g) else None))"


section \<open>Properties of the globals\<close>

definition normalizedSeed :: "string \<Rightarrow> string" where
  \<comment> \<open>what lines 76 to 79 make of a URL that the constructor leaves as it is: the part
      before the first \<open>#\<close>, without one trailing slash\<close>
  "normalizedSeed u =
     (if endsWith (split_hash_0 u) ''/'' then butlast (split_hash_0 u) else split_hash_0 u)"

definition fetched :: "string \<Rightarrow> globals \<Rightarrow> bool" where
  \<comment> \<open>\<open>checkLinks\<close> has fetched this URL, and an outcome is recorded for it\<close>
  "fetched x g = (x \<in> visited g \<and> (\<exists>c \<in> set (checkedLinks g). url c = x))"

definition fetch_inv :: "globals \<times> pc list \<Rightarrow> bool" where
  \<comment> \<open>every URL in \<open>visited\<close> has a recorded outcome, or a worker is waiting for its fetch\<close>
  "fetch_inv c =
     (\<forall>x \<in> visited (fst c).
        (\<exists>k \<in> set (checkedLinks (fst c)). url k = x) \<or> (\<exists>origin. AwaitFetch x origin \<in> set (snd c)))"





section \<open>Example sites\<close>

text \<open>
  The values of \<open>new URL(rel, base).href\<close> and \<open>new URL(u).origin\<close> in Node.js for the
  URLs of the examples below. Only these arguments occur in the example runs;
  \<open>new URL("http://", base)\<close> throws (an \<open>http\<close> URL needs a host), like every argument
  that is not listed.
\<close>

definition node_URL_href :: "string \<Rightarrow> string \<Rightarrow> string option" where
  "node_URL_href rel base = map_of
     [((''/about'', ''https://site.test/''), ''https://site.test/about''),
      ((''/missing'', ''https://site.test/''), ''https://site.test/missing''),
      ((''/old'', ''https://site.test/''), ''https://site.test/old''),
      ((''/'', ''https://site.test/''), ''https://site.test/''),
      ((''/'', ''https://site.test''), ''https://site.test/''),
      ((''/a/b'', ''https://site.test/''), ''https://site.test/a/b''),
      ((''/a/b/'', ''https://site.test/''), ''https://site.test/a/b/''),
      ((''/about'', ''https://site.test/old''), ''https://site.test/about''),
      ((''/about'', ''https://site.test/page#top''), ''https://site.test/about''),
      ((''/page'', ''https://site.test/page#top''), ''https://site.test/page''),
      ((''https://other.test/x'', ''https://site.test/''), ''https://other.test/x''),
      ((''https://other.test/moved'', ''https://site.test/''), ''https://other.test/moved''),
      ((''https://down.test/x'', ''https://site.test/''), ''https://down.test/x'')]
     (rel, base)"

definition node_URL_origin :: "string \<Rightarrow> string option" where
  "node_URL_origin u = map_of
     [(''https://site.test/'', ''https://site.test''),
      (''https://site.test'', ''https://site.test''),
      (''https://site.test/about'', ''https://site.test''),
      (''https://site.test/missing'', ''https://site.test''),
      (''https://site.test/old'', ''https://site.test''),
      (''https://site.test/page#top'', ''https://site.test''),
      (''https://site.test/page'', ''https://site.test''),
      (''https://other.test/x'', ''https://other.test''),
      (''https://other.test/moved'', ''https://other.test''),
      (''https://down.test/x'', ''https://down.test'')] u"

definition site :: "(string \<times> (string + response)) list \<Rightarrow> env" where
  \<comment> \<open>a web given by the result of \<open>fetch\<close> for each of its URLs; elsewhere there is no
      server and \<open>fetch\<close> rejects\<close>
  "site pages =
     \<lparr>fetch = (\<lambda>u. case map_of pages u of None \<Rightarrow> Inl ''fetch failed'' | Some r \<Rightarrow> r),
      URL_href = node_URL_href, URL_origin = node_URL_origin\<rparr>"

definition html :: "string option list \<Rightarrow> string + response" where
  \<comment> \<open>a 200 response with an HTML document that has these anchors\<close>
  "html anchors = Inr \<lparr>resp_status = 200, resp_location = None,
     resp_content_type = Some ''text/html; charset=utf-8'', resp_text = Inr anchors\<rparr>"

definition plain :: "nat \<Rightarrow> string + response" where
  \<comment> \<open>a response with this status, neither of the two headers and an empty body\<close>
  "plain n = Inr \<lparr>resp_status = n, resp_location = None,
     resp_content_type = None, resp_text = Inr []\<rparr>"

definition redirect :: "nat \<Rightarrow> string \<Rightarrow> string + response" where
  \<comment> \<open>a response with this status and this \<open>Location\<close> header\<close>
  "redirect n loc = Inr \<lparr>resp_status = n, resp_location = Some loc,
     resp_content_type = None, resp_text = Inr []\<rparr>"

definition site_test :: env where
  \<comment> \<open>a home page with two internal links, one of them broken, and one external link\<close>
  "site_test = site
     [(''https://site.test/'',
        html [Some ''/about'', Some ''https://other.test/x'', Some ''/missing'']),
      (''https://site.test/about'', html []),
      (''https://site.test/missing'', plain 404),
      (''https://other.test/x'', plain 200)]"

definition site_bad_location :: env where
  \<comment> \<open>the home page redirects with a \<open>Location\<close> header that is not a URL\<close>
  "site_bad_location = site [(''https://site.test/'', redirect 301 ''http://'')]"

definition site_moved :: env where
  \<comment> \<open>the home page links to an external URL that answers 301 without \<open>Location\<close>;
      an old page redirects to the about page\<close>
  "site_moved = site
     [(''https://site.test/'', html [Some ''https://other.test/moved'']),
      (''https://other.test/moved'', plain 301),
      (''https://site.test/old'', redirect 301 ''/about''),
      (''https://site.test/about'', html [])]"


definition site_down :: env where
  \<comment> \<open>the home page links to an external host that cannot be reached\<close>
  "site_down = site
     [(''https://site.test/'', html [Some ''https://down.test/x'']),
      (''https://down.test/x'', Inl ''fetch failed'')]"

definition site_root :: env where
  \<comment> \<open>the home page, served with and without the trailing slash, links to the about
      page and to \<open>/\<close>\<close>
  "site_root = site
     [(''https://site.test/'', html [Some ''/about'', Some ''/'']),
      (''https://site.test'', html [Some ''/about'', Some ''/'']),
      (''https://site.test/about'', html [])]"

definition site_fragment :: env where
  \<comment> \<open>a page that links to its own top, to the about page and to itself\<close>
  "site_fragment = site
     [(''https://site.test/page#top'', html [Some ''#top'', Some ''/about'', Some ''/page'']),
      (''https://site.test/page'', html [Some ''#top'', Some ''/about'', Some ''/page'']),
      (''https://site.test/about'', html [])]"

section \<open>Steps and schedules\<close>

lemma run_schedule_append:
  "run_schedule e (a @ b) c = run_schedule e b (run_schedule e a c)"
  by (induction a arbitrary: c) simp_all

lemma workers_append:
  "workers e n (a @ b) g = run_schedule e b (workers e n a g)"
  by (simp add: workers_def run_schedule_append)

lemma step_worker_0:
  "step_worker e 0 (g, p # ws) = (fst (resume e p g), snd (resume e p g) # ws)"
  by (simp add: step_worker_def split: prod.splits)

lemma enqueue_links_lists:
  "enqueue_links e origin links g = (g', m) \<Longrightarrow>
     deadLinks g' = deadLinks g \<and> checkedLinks g' = checkedLinks g"
  by (induction links arbitrary: g)
     (auto simp: Let_def split: if_splits option.splits)

lemma enqueue_links_grows:
  "enqueue_links e origin links g = (g', m) \<Longrightarrow>
     visited g' = visited g \<and> queuedLinks g \<subseteq> queuedLinks g'
     \<and> (\<exists>new. queue g' = queue g @ new)"
proof (induction links arbitrary: g)
  case Nil
  then show ?case by simp
next
  case (Cons link links)
  show ?case
  proof (cases "link \<in> queuedLinks g")
    case True
    with Cons show ?thesis by simp
  next
    case False
    let ?g1 = "g\<lparr>queuedLinks := insert link (queuedLinks g)\<rparr>"
    show ?thesis
    proof (cases "URL_origin e link")
      case None
      with False Cons.prems show ?thesis by (auto simp: Let_def)
    next
      case (Some lo)
      let ?t = "if lo = origin then CheckLinks link origin else ExternalCheck link"
      let ?g2 = "?g1\<lparr>queue := queue ?g1 @ [?t], totalLinks := totalLinks ?g1 + 1\<rparr>"
      from False Some Cons.prems have "enqueue_links e origin links ?g2 = (g', m)"
        by (simp add: Let_def split: if_splits)
      from Cons.IH[OF this] show ?thesis by auto
    qed
  qed
qed

lemma checkLinks_fetched_records:
  "\<exists>c cs. checkedLinks (fst (checkLinks_fetched e v origin g)) = checkedLinks g @ c # cs
     \<and> url c = v"
  by (auto simp: checkLinks_fetched_def catch_block_def Let_def split: sum.splits option.splits)

lemma checkLinks_fetched_grows:
  "visited (fst (checkLinks_fetched e v origin g)) = visited g
   \<and> queuedLinks g \<subseteq> queuedLinks (fst (checkLinks_fetched e v origin g))
   \<and> (\<exists>new. queue (fst (checkLinks_fetched e v origin g)) = queue g @ new)
   \<and> (snd (checkLinks_fetched e v origin g) = LoopHead
        \<or> (\<exists>r. snd (checkLinks_fetched e v origin g) = AwaitText v origin r))"
  by (auto simp: checkLinks_fetched_def catch_block_def Let_def split: sum.splits option.splits)

lemma checkLinks_parsed_grows:
  "visited (checkLinks_parsed e v origin r g) = visited g
   \<and> queuedLinks g \<subseteq> queuedLinks (checkLinks_parsed e v origin r g)
   \<and> set (checkedLinks g) \<subseteq> set (checkedLinks (checkLinks_parsed e v origin r g))
   \<and> (\<exists>new. queue (checkLinks_parsed e v origin r g) = queue g @ new)"
proof (cases "resp_text r")
  case (Inl m)
  then show ?thesis by (auto simp: checkLinks_parsed_def catch_block_def)
next
  case (Inr anchors)
  obtain g' m where q: "enqueue_links e origin (extract_links e v anchors) g = (g', m)"
    by (cases "enqueue_links e origin (extract_links e v anchors) g")
  from enqueue_links_grows[OF q] enqueue_links_lists[OF q] Inr q show ?thesis
    by (cases m) (auto simp: checkLinks_parsed_def catch_block_def)
qed

lemma external_fetched_grows:
  "visited (external_fetched e link g) = visited g
   \<and> queuedLinks (external_fetched e link g) = queuedLinks g
   \<and> set (checkedLinks g) \<subseteq> set (checkedLinks (external_fetched e link g))
   \<and> queue (external_fetched e link g) = queue g"
  by (auto simp: external_fetched_def Let_def split: sum.splits)

lemma resume_grows:
  assumes "resume e p g = (g', p')"
  shows "visited g \<subseteq> visited g' \<and> queuedLinks g \<subseteq> queuedLinks g'
    \<and> set (checkedLinks g) \<subseteq> set (checkedLinks g')"
proof (cases p)
  case LoopHead
  with assms show ?thesis
    by (auto simp: worker_head_def checkLinks_start_def split: list.splits task.splits if_splits)
next
  case (AwaitFetch v origin)
  with assms have g': "g' = fst (checkLinks_fetched e v origin g)" by simp
  from checkLinks_fetched_records[of e v origin g] checkLinks_fetched_grows[of e v origin g]
  show ?thesis unfolding g' by auto
next
  case (AwaitText v origin r)
  with assms checkLinks_parsed_grows[of e v origin r g] show ?thesis by auto
next
  case (AwaitFetchExt link)
  with assms external_fetched_grows[of e link g] show ?thesis by auto
next
  case Done
  with assms show ?thesis by simp
qed

lemma step_worker_grows:
  "visited (fst c) \<subseteq> visited (fst (step_worker e i c))
   \<and> queuedLinks (fst c) \<subseteq> queuedLinks (fst (step_worker e i c))
   \<and> set (checkedLinks (fst c)) \<subseteq> set (checkedLinks (fst (step_worker e i c)))"
proof (cases c)
  case (Pair g ws)
  show ?thesis
  proof (cases "i < length ws")
    case False
    with Pair show ?thesis by (simp add: step_worker_def)
  next
    case True
    obtain g' p' where r: "resume e (ws ! i) g = (g', p')" by (cases "resume e (ws ! i) g")
    with Pair True resume_grows[OF r] show ?thesis by (simp add: step_worker_def)
  qed
qed

lemma run_schedule_grows:
  "visited (fst c) \<subseteq> visited (fst (run_schedule e sched c))
   \<and> queuedLinks (fst c) \<subseteq> queuedLinks (fst (run_schedule e sched c))
   \<and> set (checkedLinks (fst c)) \<subseteq> set (checkedLinks (fst (run_schedule e sched c)))"
proof (induction sched arbitrary: c)
  case Nil
  show ?case by simp
next
  case (Cons i sched)
  from Cons[of "step_worker e i c"] step_worker_grows[of c e i] show ?case
    by (simp only: run_schedule.simps) blast
qed

lemma resume_fetch_step:
  assumes "resume e p g = (g', p')"
  shows "(\<forall>y \<in> visited g'. y \<in> visited g \<or> (\<exists>origin. p' = AwaitFetch y origin))
    \<and> (\<forall>y origin. p = AwaitFetch y origin \<longrightarrow> (\<exists>k \<in> set (checkedLinks g'). url k = y))"
proof (cases p)
  case LoopHead
  with assms show ?thesis
    by (auto simp: worker_head_def checkLinks_start_def split: list.splits task.splits if_splits)
next
  case (AwaitFetch v origin)
  with assms have g': "g' = fst (checkLinks_fetched e v origin g)" by simp
  from checkLinks_fetched_records[of e v origin g] checkLinks_fetched_grows[of e v origin g]
  show ?thesis unfolding g' using AwaitFetch by auto
next
  case (AwaitText v origin r)
  with assms checkLinks_parsed_grows[of e v origin r g] show ?thesis by auto
next
  case (AwaitFetchExt link)
  with assms external_fetched_grows[of e link g] show ?thesis by auto
next
  case Done
  with assms show ?thesis by simp
qed

lemma step_worker_fetch_inv: "fetch_inv c \<Longrightarrow> fetch_inv (step_worker e i c)"
proof (cases c)
  case (Pair g ws)
  assume inv: "fetch_inv c"
  show ?thesis
  proof (cases "i < length ws")
    case False
    with Pair inv show ?thesis by (simp add: step_worker_def)
  next
    case True
    obtain g' p' where r: "resume e (ws ! i) g = (g', p')" by (cases "resume e (ws ! i) g")
    have s: "step_worker e i c = (g', ws[i := p'])"
      using Pair True r by (simp add: step_worker_def)
    note f = resume_fetch_step[OF r] and m = resume_grows[OF r]
    have "(\<exists>k \<in> set (checkedLinks g'). url k = y)
        \<or> (\<exists>origin. AwaitFetch y origin \<in> set (ws[i := p']))" if y: "y \<in> visited g'" for y
    proof (cases "\<exists>origin. p' = AwaitFetch y origin")
      case True
      then obtain origin where "p' = AwaitFetch y origin" by blast
      with \<open>i < length ws\<close> have "AwaitFetch y origin \<in> set (ws[i := p'])"
        by (simp add: set_update_memI)
      then show ?thesis by blast
    next
      case False
      with f y have "y \<in> visited g" by blast
      with inv Pair have "(\<exists>k \<in> set (checkedLinks g). url k = y)
          \<or> (\<exists>origin. AwaitFetch y origin \<in> set ws)"
        by (simp add: fetch_inv_def)
      then show ?thesis
      proof
        assume "\<exists>k \<in> set (checkedLinks g). url k = y"
        with m show ?thesis by blast
      next
        assume "\<exists>origin. AwaitFetch y origin \<in> set ws"
        then obtain origin j where j: "j < length ws" "ws ! j = AwaitFetch y origin"
          by (auto simp: in_set_conv_nth)
        show ?thesis
        proof (cases "j = i")
          case True
          with j f show ?thesis by blast
        next
          case False
          with j have "(ws[i := p']) ! j = AwaitFetch y origin" "j < length (ws[i := p'])"
            by simp_all
          then have "AwaitFetch y origin \<in> set (ws[i := p'])"
            by (metis nth_mem)
          then show ?thesis by blast
        qed
      qed
    qed
    then show ?thesis by (simp add: s fetch_inv_def)
  qed
qed

lemma run_schedule_fetch_inv: "fetch_inv c \<Longrightarrow> fetch_inv (run_schedule e sched c)"
  by (induction sched arbitrary: c) (simp_all add: step_worker_fetch_inv)

lemma workers_fetch_inv: "fetch_inv (workers e n sched (seeded u origin))"
  unfolding workers_def
  by (rule run_schedule_fetch_inv) (simp add: fetch_inv_def seeded_def globals0_def)

text \<open>
  Under \<open>main\<close> the queue holds the seed alone when the workers are created: worker 0
  takes it, and every other worker finds the queue empty at its first loop test and
  ends. From then on worker 0 is the only worker.
\<close>

lemma step_worker_idle:
  "queue g = [] \<Longrightarrow> length pre = k \<Longrightarrow>
     step_worker e k (g, pre @ LoopHead # post) = (g, pre @ Done # post)"
  by (auto simp: step_worker_def worker_head_def nth_append list_update_append)

lemma spawn_idle:
  "queue g = [] \<Longrightarrow> length pre = k \<Longrightarrow>
     run_schedule e [k..<k + m] (g, pre @ replicate m LoopHead) = (g, pre @ replicate m Done)"
proof (induction m arbitrary: pre k)
  case 0
  then show ?case by simp
next
  case (Suc m)
  have "[k..<k + Suc m] = k # [Suc k..<Suc k + m]"
    by (simp add: upt_conv_Cons)
  moreover have "length (pre @ [Done]) = Suc k" using Suc.prems by simp
  ultimately show ?case
    using Suc.IH[of "pre @ [Done]" "Suc k"] Suc.prems
    by (simp add: step_worker_idle)
qed

lemma workers_seeded:
  "workers e (Suc m) sched (seeded u origin) =
     run_schedule e sched
       (seeded u origin\<lparr>queue := [], visited := {u}\<rparr>, AwaitFetch u origin # replicate m Done)"
proof -
  let ?g = "seeded u origin\<lparr>queue := [], visited := {u}\<rparr>"
  have u: "[0..<Suc m] = 0 # [1..<1 + m]" by (simp add: upt_conv_Cons)
  have s: "step_worker e 0 (seeded u origin, replicate (Suc m) LoopHead)
      = (?g, AwaitFetch u origin # replicate m LoopHead)"
    by (simp add: step_worker_0 worker_head_def seeded_def globals0_def checkLinks_start_def)
  have "run_schedule e [1..<1 + m] (?g, [AwaitFetch u origin] @ replicate m LoopHead)
      = (?g, [AwaitFetch u origin] @ replicate m Done)"
    by (rule spawn_idle) simp_all
  then have "run_schedule e [0..<Suc m] (seeded u origin, replicate (Suc m) LoopHead)
      = (?g, AwaitFetch u origin # replicate m Done)"
    unfolding u using s by simp
  then show ?thesis
    by (simp add: workers_def run_schedule_append del: upt_Suc replicate_Suc)
qed

lemma step_worker_solo:
  "\<exists>g' p'. step_worker e i (g, p # replicate m Done) = (g', p' # replicate m Done)"
proof (cases i)
  case 0
  then show ?thesis by (simp add: step_worker_0)
next
  case (Suc j)
  then have "step_worker e i (g, p # replicate m Done) = (g, p # replicate m Done)"
    by (auto simp: step_worker_def list_update_same_conv)
  then show ?thesis by simp
qed

lemma run_schedule_solo:
  "\<exists>g' p'. run_schedule e sched (g, p # replicate m Done) = (g', p' # replicate m Done)"
proof (induction sched arbitrary: g p)
  case Nil
  show ?case by simp
next
  case (Cons i sched)
  obtain g1 p1 where "step_worker e i (g, p # replicate m Done) = (g1, p1 # replicate m Done)"
    using step_worker_solo by blast
  with Cons[of g1 p1] show ?case by simp
qed

lemma crawl_is_sequential:
  "\<exists>p. snd (crawl e u origin (Suc m) sched) = p # replicate m Done"
proof -
  obtain g' p' where "crawl e u origin (Suc m) sched = (g', p' # replicate m Done)"
    unfolding crawl_def workers_seeded using run_schedule_solo by blast
  then show ?thesis by simp
qed

section \<open>Normalization of hrefs\<close>

lemma normalizedLink_accepted:
  "accepted_href (trim h) \<Longrightarrow>
     normalizedLink e u (Some h) =
       map_option (\<lambda>r. if endsWith r ''/'' then butlast r else r)
         (URL_href e (split_hash_0 (trim h)) u)"
  by (simp add: normalizedLink_def split: option.splits)

lemma endsWith_slash_append: "endsWith (r @ ''/'') ''/''"
  by (simp add: endsWith_def)

text \<open>
  C4. The hrefs \<open>/a/b/\<close>, \<open>/a/b\<close> and \<open>/a/b#frag\<close> normalize to the same address against
  every base. The URL constructor is the platform's; what is used of it is that it keeps
  the trailing slash of the path (\<open>new URL("/a/b/", base).href\<close> is
  \<open>new URL("/a/b", base).href\<close> followed by \<open>/\<close>, and both throw or neither does) and that
  the href of \<open>/a/b\<close> does not end in a slash.
\<close>

theorem normalization_equivalence:
  assumes "URL_href e ''/a/b/'' base = map_option (\<lambda>r. r @ ''/'') (URL_href e ''/a/b'' base)"
    and "\<forall>r. URL_href e ''/a/b'' base = Some r \<longrightarrow> \<not> endsWith r ''/''"
  shows "normalizedLink e base (Some ''/a/b/'') = normalizedLink e base (Some ''/a/b'')
    \<and> normalizedLink e base (Some ''/a/b#frag'') = normalizedLink e base (Some ''/a/b'')
    \<and> normalizedLink e base (Some ''/a/b'') = URL_href e ''/a/b'' base"
proof -
  have t: "trim ''/a/b/'' = ''/a/b/''" "trim ''/a/b'' = ''/a/b''" "trim ''/a/b#frag'' = ''/a/b#frag''"
    by (simp_all add: trim_def is_space_def)
  have a: "accepted_href ''/a/b/''" "accepted_href ''/a/b''" "accepted_href ''/a/b#frag''"
    by (simp_all add: accepted_href_def startsWith_def)
  have s: "split_hash_0 ''/a/b/'' = ''/a/b/''" "split_hash_0 ''/a/b'' = ''/a/b''"
    "split_hash_0 ''/a/b#frag'' = ''/a/b''"
    by (simp_all add: split_hash_0_def)
  have n1: "normalizedLink e base (Some ''/a/b'') = URL_href e ''/a/b'' base"
    using assms(2) by (cases "URL_href e ''/a/b'' base") (simp_all add: normalizedLink_accepted t a s)
  have n2: "normalizedLink e base (Some ''/a/b#frag'') = URL_href e ''/a/b'' base"
    using assms(2) by (cases "URL_href e ''/a/b'' base") (simp_all add: normalizedLink_accepted t a s)
  have n3: "normalizedLink e base (Some ''/a/b/'') = URL_href e ''/a/b'' base"
    using assms(1)
    by (cases "URL_href e ''/a/b'' base")
       (simp_all add: normalizedLink_accepted t a s endsWith_slash_append)
  from n1 n2 n3 show ?thesis by simp
qed

theorem normalization_equivalence_witness:
  "normalizedLink site_test ''https://site.test/'' (Some ''/a/b/'') = Some ''https://site.test/a/b''
   \<and> normalizedLink site_test ''https://site.test/'' (Some ''/a/b#frag'') = Some ''https://site.test/a/b''
   \<and> normalizedLink site_test ''https://site.test/'' (Some ''/a/b'') = Some ''https://site.test/a/b''"
proof -
  have h: "URL_href site_test ''/a/b'' ''https://site.test/'' = Some ''https://site.test/a/b''"
    by (simp add: site_test_def site_def node_URL_href_def)
  have h1: "URL_href site_test ''/a/b/'' ''https://site.test/''
      = map_option (\<lambda>r. r @ ''/'') (URL_href site_test ''/a/b'' ''https://site.test/'')"
    by (simp add: site_test_def site_def node_URL_href_def)
  have h2: "\<forall>r. URL_href site_test ''/a/b'' ''https://site.test/'' = Some r \<longrightarrow> \<not> endsWith r ''/''"
    by (simp add: h endsWith_def)
  from normalization_equivalence[OF h1 h2] h show ?thesis by simp
qed

text \<open>
  C5 (as the code has it). Normalization strips one trailing slash from every resolved
  URL that ends in one, and only that; the root is no exception, so the resolved URL
  \<open>scheme://host/\<close> becomes \<open>scheme://host\<close>.
\<close>

theorem trailing_slash_stripped:
  assumes "accepted_href (trim h)"
    and "URL_href e (split_hash_0 (trim h)) u = Some r"
  shows "normalizedLink e u (Some h) = Some (if endsWith r ''/'' then butlast r else r)
    \<and> (endsWith r ''/'' \<longrightarrow> butlast r @ ''/'' = r)"
proof -
  have "endsWith r ''/'' \<Longrightarrow> butlast r @ ''/'' = r"
    by (cases r rule: rev_cases) (auto simp: endsWith_def)
  then show ?thesis
    using assms by (auto simp: normalizedLink_accepted)
qed

theorem trailing_slash_stripped_witness:
  "accepted_href (trim '' / '')
   \<and> URL_href site_test (split_hash_0 (trim '' / '')) ''https://site.test/''
       = Some ''https://site.test/''
   \<and> endsWith ''https://site.test/'' ''/''
   \<and> normalizedLink site_test ''https://site.test/'' (Some '' / '') = Some ''https://site.test''
   \<and> \<not> endsWith ''https://site.test/about'' ''/''
   \<and> normalizedLink site_test ''https://site.test/'' (Some ''/about'')
       = Some ''https://site.test/about''"
proof -
  have a: "accepted_href (trim '' / '')" "accepted_href (trim ''/about'')"
    by code_simp+
  have r: "URL_href site_test (split_hash_0 (trim '' / '')) ''https://site.test/''
       = Some ''https://site.test/''"
    "URL_href site_test (split_hash_0 (trim ''/about'')) ''https://site.test/''
       = Some ''https://site.test/about''"
    by code_simp+
  have s: "endsWith ''https://site.test/'' ''/''" "\<not> endsWith ''https://site.test/about'' ''/''"
    by (simp_all add: endsWith_def)
  from a r s trailing_slash_stripped[OF a(1) r(1)] trailing_slash_stripped[OF a(2) r(2)]
  show ?thesis by simp
qed

text \<open>
  C5 as the specification states it fails: the href \<open>/\<close> on the home page resolves to the
  root \<open>https://site.test/\<close>, and normalization collapses it to \<open>https://site.test\<close>.
\<close>

theorem root_slash_counterexample:
  "URL_href site_test ''/'' ''https://site.test/'' = Some ''https://site.test/''
   \<and> normalizedLink site_test ''https://site.test/'' (Some ''/'') = Some ''https://site.test''"
  by code_simp

section \<open>Redirects\<close>

text \<open>
  C3 (as the code has it). The redirect algorithm belongs to \<open>checkLinks\<close>, which checks
  the seed, the same-origin links found on pages and the redirect targets, whatever
  their origin. There a response with a status from 300 to 399 and no (or an empty)
  \<open>Location\<close> header records the address as dead with the error "Redirect with no
  Location header", and a \<open>Location\<close> that resolves to an address is queued as a
  \<open>checkLinks\<close> task unless the address is in \<open>queuedLinks\<close> already; in both cases the
  task ends without reading the body. The check of an external link found on a page
  has no redirect handling: the same response is recorded with its status, and the
  address is neither marked dead nor followed.
\<close>

theorem redirect_handling:
  assumes "fetch e u = Inr r" and "300 \<le> resp_status r" and "resp_status r < 400"
  shows "(\<not> truthy (resp_location r) \<longrightarrow>
            checkLinks_fetched e u origin g =
              (g\<lparr>checked := checked g + 1,
                 checkedLinks := checkedLinks g
                   @ [\<lparr>url = u, status = Code (resp_status r), error = None\<rparr>],
                 deadLinks := deadLinks g
                   @ [\<lparr>url = u, status = Code (resp_status r),
                       error = Some ''Redirect with no Location header''\<rparr>]\<rparr>, LoopHead))
    \<and> (\<forall>t. truthy (resp_location r) \<and> URL_href e (the (resp_location r)) u = Some t \<longrightarrow>
            checkLinks_fetched e u origin g =
              (if t \<in> queuedLinks g
               then g\<lparr>checked := checked g + 1,
                      checkedLinks := checkedLinks g
                        @ [\<lparr>url = u, status = Code (resp_status r), error = None\<rparr>]\<rparr>
               else g\<lparr>checked := checked g + 1,
                      checkedLinks := checkedLinks g
                        @ [\<lparr>url = u, status = Code (resp_status r), error = None\<rparr>],
                      queue := queue g @ [CheckLinks t origin],
                      queuedLinks := insert t (queuedLinks g),
                      totalLinks := totalLinks g + 1\<rparr>, LoopHead))
    \<and> external_fetched e u g =
          g\<lparr>checked := checked g + 1,
            checkedLinks := checkedLinks g
              @ [\<lparr>url = u, status = Code (resp_status r), error = None\<rparr>]\<rparr>"
  using assms
  by (auto simp: checkLinks_fetched_def external_fetched_def Let_def)

theorem redirect_handling_witness:
  "checkLinks_fetched site_moved ''https://other.test/moved'' ''https://site.test'' globals0 =
     (globals0\<lparr>checked := 1,
        checkedLinks := [\<lparr>url = ''https://other.test/moved'', status = Code 301, error = None\<rparr>],
        deadLinks := [\<lparr>url = ''https://other.test/moved'', status = Code 301,
                        error = Some ''Redirect with no Location header''\<rparr>]\<rparr>, LoopHead)
   \<and> checkLinks_fetched site_moved ''https://site.test/old'' ''https://site.test'' globals0 =
     (globals0\<lparr>checked := 1,
        checkedLinks := [\<lparr>url = ''https://site.test/old'', status = Code 301, error = None\<rparr>],
        queue := [CheckLinks ''https://site.test/about'' ''https://site.test''],
        queuedLinks := {''https://site.test/about''},
        totalLinks := 1\<rparr>, LoopHead)
   \<and> external_fetched site_moved ''https://other.test/moved'' globals0 =
     globals0\<lparr>checked := 1,
        checkedLinks := [\<lparr>url = ''https://other.test/moved'', status = Code 301, error = None\<rparr>]\<rparr>"
proof -
  let ?m = "\<lparr>resp_status = 301, resp_location = None, resp_content_type = None,
              resp_text = Inr []\<rparr>"
  let ?o = "\<lparr>resp_status = 301, resp_location = Some ''/about'', resp_content_type = None,
              resp_text = Inr []\<rparr>"
  have f1: "fetch site_moved ''https://other.test/moved'' = Inr ?m"
    by (simp add: site_moved_def site_def plain_def)
  have f2: "fetch site_moved ''https://site.test/old'' = Inr ?o"
    by (simp add: site_moved_def site_def redirect_def)
  have s: "(300::nat) \<le> resp_status ?m" "resp_status ?m < 400"
    "(300::nat) \<le> resp_status ?o" "resp_status ?o < 400" by simp_all
  have l: "\<not> truthy (resp_location ?m)" "truthy (resp_location ?o)"
    by (simp_all add: truthy_def)
  have t: "URL_href site_moved (the (resp_location ?o)) ''https://site.test/old''
             = Some ''https://site.test/about''"
    by (simp add: site_moved_def site_def node_URL_href_def)
  have q: "''https://site.test/about'' \<notin> queuedLinks globals0"
    by (simp add: globals0_def)
  from redirect_handling[OF f1 s(1,2), of "''https://site.test''" globals0]
       redirect_handling[OF f2 s(3,4), of "''https://site.test''" globals0] l t q
  show ?thesis by (simp add: globals0_def)
qed

text \<open>
  C3 as the specification states it fails for an external address: the home page links
  to \<open>https://other.test/moved\<close>, which answers 301 without a \<open>Location\<close> header. At the
  end of the run the address is recorded with status 301 and the dead-link list is
  empty.
\<close>

theorem external_redirect_counterexample:
  "fetch site_moved ''https://other.test/moved'' = plain 301
   \<and> all_done (snd (crawl site_moved ''https://site.test/'' ''https://site.test'' 1 [0, 0, 0, 0, 0]))
   \<and> checkedLinks (fst (crawl site_moved ''https://site.test/'' ''https://site.test'' 1 [0, 0, 0, 0, 0]))
       = [\<lparr>url = ''https://site.test/'', status = Code 200, error = None\<rparr>,
          \<lparr>url = ''https://other.test/moved'', status = Code 301, error = None\<rparr>]
   \<and> deadLinks (fst (crawl site_moved ''https://site.test/'' ''https://site.test'' 1 [0, 0, 0, 0, 0]))
       = []"
  by code_simp

section \<open>The list of dead links\<close>












section \<open>Outcomes per address\<close>

text \<open>
  C2, at an input where the code breaks it. The home page answers 301 with the
  \<open>Location\<close> header \<open>http://\<close>. The outcome with status 301 is recorded on line 33; then
  \<open>new URL(location, url)\<close> on line 50 throws inside the \<open>try\<close> block, and the \<open>catch\<close> of
  line 124 records a second outcome, \<open>FETCH_ERROR\<close>, for the same address.
\<close>

theorem two_outcomes_for_one_address:
  "URL_href site_bad_location ''http://'' ''https://site.test/'' = None
   \<and> crawl site_bad_location ''https://site.test/'' ''https://site.test'' 1 [0, 0] =
     (\<lparr>deadLinks = [\<lparr>url = ''https://site.test/'', status = FETCH_ERROR,
                      error = Some ''Invalid URL''\<rparr>],
       visited = {''https://site.test/''},
       queuedLinks = {''https://site.test/''},
       checkedLinks = [\<lparr>url = ''https://site.test/'', status = Code 301, error = None\<rparr>,
                       \<lparr>url = ''https://site.test/'', status = FETCH_ERROR,
                         error = Some ''Invalid URL''\<rparr>],
       checked = 1, totalLinks = 1, queue = []\<rparr>, [Done])"
  by code_simp

text \<open>
  C7, at an input where the code breaks it. The home page links to an external host that
  cannot be reached. The \<open>catch\<close> of the external check (lines 112 to 118) pushes the
  failure on \<open>deadLinks\<close> only: at the end of the run \<open>checkedLinks\<close> has no entry for the
  address, while a failed fetch in \<open>checkLinks\<close> (lines 124 to 127) is pushed on both lists.
\<close>

theorem external_fetch_error_not_checked:
  "fetch site_down ''https://down.test/x'' = Inl ''fetch failed''
   \<and> crawl site_down ''https://site.test/'' ''https://site.test'' 1 [0, 0, 0, 0, 0] =
     (\<lparr>deadLinks = [\<lparr>url = ''https://down.test/x'', status = FETCH_ERROR,
                      error = Some ''fetch failed''\<rparr>],
       visited = {''https://site.test/''},
       queuedLinks = {''https://down.test/x'', ''https://site.test/''},
       checkedLinks = [\<lparr>url = ''https://site.test/'', status = Code 200, error = None\<rparr>],
       checked = 1, totalLinks = 2, queue = []\<rparr>, [Done])
   \<and> checkLinks_fetched site_down ''https://down.test/x'' ''https://site.test'' globals0 =
     (globals0\<lparr>checkedLinks := [\<lparr>url = ''https://down.test/x'', status = FETCH_ERROR,
                                   error = Some ''fetch failed''\<rparr>],
               deadLinks := [\<lparr>url = ''https://down.test/x'', status = FETCH_ERROR,
                                error = Some ''fetch failed''\<rparr>]\<rparr>, LoopHead)"
  by code_simp

section \<open>Termination protocol of the worker pool\<close>

text \<open>
  C1, at an input where the code breaks it. The loop of lines 137 to 141 tests
  \<open>queue.length > 0\<close> only; the program keeps no count of the tasks in flight. With two
  workers, worker 1 finds the queue empty and ends while worker 0 is waiting for the
  seed page; the task of worker 0 then queues three more tasks, and worker 0 runs them
  alone, one after the other. By \<open>crawl_is_sequential\<close> this is so for every seed,
  environment and number of workers: the pool never runs two requests at a time.
\<close>

theorem workers_exit_while_seed_in_flight:
  "crawl site_test ''https://site.test/'' ''https://site.test'' 2 [] =
     (\<lparr>deadLinks = [], visited = {''https://site.test/''},
       queuedLinks = {''https://site.test/''}, checkedLinks = [], checked = 0,
       totalLinks = 1, queue = []\<rparr>,
      [AwaitFetch ''https://site.test/'' ''https://site.test'', Done])
   \<and> queue (fst (crawl site_test ''https://site.test/'' ''https://site.test'' 2 [0, 0])) =
       [CheckLinks ''https://site.test/about'' ''https://site.test'',
        ExternalCheck ''https://other.test/x'',
        CheckLinks ''https://site.test/missing'' ''https://site.test'']
   \<and> snd (crawl site_test ''https://site.test/'' ''https://site.test'' 2 [0, 0]) =
       [LoopHead, Done]"
  by code_simp

section \<open>A pool without workers\<close>

lemma run_schedule_no_workers: "run_schedule e sched (g, []) = (g, [])"
  by (induction sched) (simp_all add: step_worker_def)

text \<open>
  C10. When a seed URL is given and the value of \<open>--concurrent\<close> parses to zero, to a
  negative number or to \<open>NaN\<close>, the pool has no worker. Under every schedule, the empty
  one included, \<open>processQueue\<close> has returned with the globals as \<open>main\<close> set them up: the
  seed is still queued, nothing has been fetched or recorded, and the process exits 0
  with the message that no dead links were found.
\<close>

theorem no_workers_exit_0:
  assumes "concurrentRequests args = None \<or> (\<exists>k. concurrentRequests args = Some k \<and> k \<le> 0)"
    and "truthy (inputURL args)"
    and "URL_origin e (the (inputURL args)) = Some origin"
  shows "array_length (concurrentRequests args) = Some 0
    \<and> processQueue e (concurrentRequests args) sched (seeded (the (inputURL args)) origin)
         = Inr (crawl e (the (inputURL args)) origin 0 sched)
    \<and> crawl e (the (inputURL args)) origin 0 sched
         = (\<lparr>deadLinks = [], visited = {}, queuedLinks = {the (inputURL args)},
             checkedLinks = [], checked = 0, totalLinks = 1,
             queue = [CheckLinks (the (inputURL args)) origin]\<rparr>, [])
    \<and> (\<exists>out. main e args sched
           = Some \<lparr>exit_code = 0, stdout = out @ [''No dead links found.''], stderr = [],
                   unexpected = None\<rparr>)"
proof -
  from assms(1) have n: "array_length (concurrentRequests args) = Some 0"
    by (auto simp: array_length_def)
  then have p: "processQueue e (concurrentRequests args) sched (seeded (the (inputURL args)) origin)
         = Inr (crawl e (the (inputURL args)) origin 0 sched)"
    by (simp add: processQueue_def crawl_def)
  have c: "crawl e (the (inputURL args)) origin 0 sched
      = (seeded (the (inputURL args)) origin, [])"
    by (simp add: crawl_def workers_def run_schedule_no_workers)
  have s: "seeded (the (inputURL args)) origin
      = \<lparr>deadLinks = [], visited = {}, queuedLinks = {the (inputURL args)},
          checkedLinks = [], checked = 0, totalLinks = 1,
          queue = [CheckLinks (the (inputURL args)) origin]\<rparr>"
    by (simp add: seeded_def globals0_def)
  have "main e args sched
      = Some (report (''-v'' \<in> set args) (the (inputURL args)) (seeded (the (inputURL args)) origin))"
    using assms(2,3) by (simp add: main_def p c all_done_def Let_def)
  then have "\<exists>out. main e args sched
           = Some \<lparr>exit_code = 0, stdout = out @ [''No dead links found.''], stderr = [],
                   unexpected = None\<rparr>"
    by (simp add: report_def s Let_def)
  with n p c s show ?thesis by simp
qed

theorem no_workers_exit_0_witness:
  "concurrentRequests [''https://site.test/'', ''--concurrent=abc''] = None
   \<and> concurrentRequests [''https://site.test/'', ''--concurrent=-3''] = Some (- 3)
   \<and> concurrentRequests [''--concurrent=0'', ''https://site.test/''] = Some 0
   \<and> fst (crawl site_test ''https://site.test/'' ''https://site.test'' 0 [0, 1, 0]) =
       \<lparr>deadLinks = [], visited = {}, queuedLinks = {''https://site.test/''},
        checkedLinks = [], checked = 0, totalLinks = 1,
        queue = [CheckLinks ''https://site.test/'' ''https://site.test'']\<rparr>
   \<and> main site_test [''https://site.test/'', ''--concurrent=abc''] [] =
       Some \<lparr>exit_code = 0,
              stdout = [''Starting to check links on: https://site.test/'' @ [CHR 0x0A],
                        [CHR 0x0A], ''No dead links found.''],
              stderr = [], unexpected = None\<rparr>"
proof -
  let ?a = "[''https://site.test/'', ''--concurrent=abc'']"
  have p: "concurrentRequests ?a = None"
    "concurrentRequests [''https://site.test/'', ''--concurrent=-3''] = Some (- 3)"
    "concurrentRequests [''--concurrent=0'', ''https://site.test/''] = Some 0"
    by code_simp+
  have i: "truthy (inputURL ?a)" "the (inputURL ?a) = ''https://site.test/''"
    by code_simp+
  have o: "URL_origin site_test (the (inputURL ?a)) = Some ''https://site.test''"
    by code_simp
  have m: "main site_test ?a [] =
       Some \<lparr>exit_code = 0,
              stdout = [''Starting to check links on: https://site.test/'' @ [CHR 0x0A],
                        [CHR 0x0A], ''No dead links found.''],
              stderr = [], unexpected = None\<rparr>"
    by code_simp
  from no_workers_exit_0[OF disjI1[OF p(1)] i(1) o, of "[0, 1, 0]"] p i m
  show ?thesis by simp
qed

section \<open>The seed is not normalized\<close>

lemma task_completes:
  assumes "queue g = t # rest"
  shows "\<exists>k g'. run_schedule e (replicate k 0) (g, LoopHead # ws) = (g', LoopHead # ws)
    \<and> (\<exists>new. queue g' = rest @ new)
    \<and> (\<forall>x origin. t = CheckLinks x origin \<longrightarrow> x \<in> visited g')"
proof (cases t)
  case (ExternalCheck link)
  let ?g1 = "g\<lparr>queue := rest\<rparr>"
  have "run_schedule e (replicate 2 0) (g, LoopHead # ws)
      = (external_fetched e link ?g1, LoopHead # ws)"
    using assms ExternalCheck
    by (simp add: numeral_2_eq_2 step_worker_0 worker_head_def)
  moreover have "queue (external_fetched e link ?g1) = rest @ []"
    using external_fetched_grows[of e link ?g1] by simp
  ultimately show ?thesis using ExternalCheck by blast
next
  case (CheckLinks x origin)
  show ?thesis
  proof (cases "x \<in> visited g")
    case True
    let ?g1 = "g\<lparr>queue := rest\<rparr>"
    have "run_schedule e (replicate 1 0) (g, LoopHead # ws) = (?g1, LoopHead # ws)"
      using assms CheckLinks True
      by (simp add: step_worker_0 worker_head_def checkLinks_start_def)
    moreover have "queue ?g1 = rest @ []" "x \<in> visited ?g1" using True by simp_all
    ultimately show ?thesis using CheckLinks by blast
  next
    case False
    let ?g1 = "g\<lparr>queue := rest, visited := insert x (visited g)\<rparr>"
    let ?g2 = "fst (checkLinks_fetched e x origin ?g1)"
    let ?p2 = "snd (checkLinks_fetched e x origin ?g1)"
    have s2: "run_schedule e (replicate 2 0) (g, LoopHead # ws) = (?g2, ?p2 # ws)"
      using assms CheckLinks False
      by (simp add: numeral_2_eq_2 step_worker_0 worker_head_def checkLinks_start_def)
    from checkLinks_fetched_grows[of e x origin ?g1]
    obtain new where g2: "visited ?g2 = insert x (visited g)" "queue ?g2 = rest @ new"
      and p2: "?p2 = LoopHead \<or> (\<exists>r. ?p2 = AwaitText x origin r)"
      by auto
    from p2 show ?thesis
    proof
      assume "?p2 = LoopHead"
      with s2 have "run_schedule e (replicate 2 0) (g, LoopHead # ws) = (?g2, LoopHead # ws)"
        by simp
      moreover have "x \<in> visited ?g2" using g2 by simp
      ultimately show ?thesis using CheckLinks g2(2) by blast
    next
      assume "\<exists>r. ?p2 = AwaitText x origin r"
      then obtain r where r: "?p2 = AwaitText x origin r" by blast
      let ?g3 = "checkLinks_parsed e x origin r ?g2"
      have "replicate 3 (0::nat) = replicate 2 0 @ [0]"
        by (simp add: numeral_3_eq_3 numeral_2_eq_2)
      then have "run_schedule e (replicate 3 0) (g, LoopHead # ws) = (?g3, LoopHead # ws)"
        by (simp only: run_schedule_append s2 r) (simp add: step_worker_0)
      moreover from checkLinks_parsed_grows[of e x origin r ?g2] g2
      obtain new' where "visited ?g3 = insert x (visited g)" "queue ?g3 = rest @ (new @ new')"
        by auto
      ultimately show ?thesis using CheckLinks by blast
    qed
  qed
qed

lemma queued_task_runs:
  assumes "queue g = q1 @ CheckLinks v origin # q2"
  shows "\<exists>k g'. run_schedule e (replicate k 0) (g, LoopHead # ws) = (g', LoopHead # ws)
    \<and> v \<in> visited g'"
  using assms
proof (induction q1 arbitrary: g q2)
  case Nil
  then have "queue g = CheckLinks v origin # q2" by simp
  from task_completes[OF this, of e ws] show ?case by blast
next
  case (Cons t q1)
  then have "queue g = t # (q1 @ CheckLinks v origin # q2)" by simp
  from task_completes[OF this, of e ws]
  obtain k1 g1 new where
    s1: "run_schedule e (replicate k1 0) (g, LoopHead # ws) = (g1, LoopHead # ws)"
    and q: "queue g1 = (q1 @ CheckLinks v origin # q2) @ new"
    by blast
  from q have "queue g1 = q1 @ CheckLinks v origin # (q2 @ new)" by simp
  from Cons.IH[OF this]
  obtain k2 g2 where
    s2: "run_schedule e (replicate k2 0) (g1, LoopHead # ws) = (g2, LoopHead # ws)"
    and v: "v \<in> visited g2"
    by blast
  have "run_schedule e (replicate (k1 + k2) 0) (g, LoopHead # ws) = (g2, LoopHead # ws)"
    by (simp add: replicate_add run_schedule_append s1 s2)
  with v show ?case by blast
qed

lemma enqueue_links_keeps:
  "t \<in> set (queue g) \<Longrightarrow> t \<in> set (queue (fst (enqueue_links e origin links g)))"
proof -
  assume t: "t \<in> set (queue g)"
  obtain g' m where q: "enqueue_links e origin links g = (g', m)"
    by (cases "enqueue_links e origin links g")
  from enqueue_links_grows[OF q] t show ?thesis by (auto simp: q)
qed

lemma enqueue_links_reaches:
  assumes "v \<notin> queuedLinks g \<or> CheckLinks v origin \<in> set (queue g)"
    and "URL_origin e v = Some origin"
    and "\<forall>l \<in> set pre. l \<in> queuedLinks g \<or> URL_origin e l \<noteq> None"
  shows "CheckLinks v origin \<in> set (queue (fst (enqueue_links e origin (pre @ v # post) g)))"
  using assms
proof (induction pre arbitrary: g)
  case Nil
  show ?case
  proof (cases "v \<in> queuedLinks g")
    case True
    with Nil.prems(1) have "CheckLinks v origin \<in> set (queue g)" by simp
    from enqueue_links_keeps[OF this, of e origin post] True show ?thesis by simp
  next
    case False
    let ?g2 = "g\<lparr>queuedLinks := insert v (queuedLinks g),
                 queue := queue g @ [CheckLinks v origin], totalLinks := totalLinks g + 1\<rparr>"
    have "CheckLinks v origin \<in> set (queue ?g2)" by simp
    from enqueue_links_keeps[OF this, of e origin post] False Nil.prems(2)
    show ?thesis by (simp add: Let_def)
  qed
next
  case (Cons l pre)
  show ?case
  proof (cases "l \<in> queuedLinks g")
    case True
    from Cons.prems(3) have "\<forall>l \<in> set pre. l \<in> queuedLinks g \<or> URL_origin e l \<noteq> None" by simp
    from Cons.IH[OF Cons.prems(1,2) this] True show ?thesis by simp
  next
    case False
    with Cons.prems(3) obtain lo where lo: "URL_origin e l = Some lo" by auto
    let ?t = "if lo = origin then CheckLinks l origin else ExternalCheck l"
    let ?g2 = "g\<lparr>queuedLinks := insert l (queuedLinks g),
                 queue := queue g @ [?t], totalLinks := totalLinks g + 1\<rparr>"
    have a: "v \<notin> queuedLinks ?g2 \<or> CheckLinks v origin \<in> set (queue ?g2)"
      using Cons.prems(1,2) lo by auto
    have b: "\<forall>l \<in> set pre. l \<in> queuedLinks ?g2 \<or> URL_origin e l \<noteq> None"
      using Cons.prems(3) by auto
    from Cons.IH[OF a Cons.prems(2) b] False lo show ?thesis
      by (cases "lo = origin") (simp_all add: Let_def)
  qed
qed

lemma checkLinks_parsed_reaches:
  assumes "resp_text r = Inr anchors"
    and "extract_links e p anchors = pre @ v # post"
    and "\<forall>l \<in> set pre. l \<in> queuedLinks g \<or> URL_origin e l \<noteq> None"
    and "v \<notin> queuedLinks g"
    and "URL_origin e v = Some origin"
  shows "CheckLinks v origin \<in> set (queue (checkLinks_parsed e p origin r g))"
proof -
  have "CheckLinks v origin \<in> set (queue (fst (enqueue_links e origin (pre @ v # post) g)))"
    using assms(3,4,5) by (intro enqueue_links_reaches) simp_all
  then show ?thesis
    using assms(1,2)
    by (auto simp: checkLinks_parsed_def catch_block_def split: prod.splits option.splits)
qed

lemma normalizedSeed_differs:
  assumes "endsWith u ''/'' \<or> CHR ''#'' \<in> set u"
  shows "normalizedSeed u \<noteq> u"
proof (cases "CHR ''#'' \<in> set u")
  case True
  have "CHR ''#'' \<notin> set (split_hash_0 u)"
    unfolding split_hash_0_def by (auto dest: set_takeWhileD)
  then have "CHR ''#'' \<notin> set (normalizedSeed u)"
    by (auto simp: normalizedSeed_def dest: in_set_butlastD)
  with True show ?thesis by auto
next
  case False
  then have s: "split_hash_0 u = u"
    by (auto simp: split_hash_0_def)
  from False assms have "endsWith u ''/''" by simp
  then have n: "u \<noteq> []" by (auto simp: endsWith_def)
  with \<open>endsWith u ''/''\<close> have "length (normalizedSeed u) < length u"
    by (simp add: normalizedSeed_def s)
  then show ?thesis by auto
qed

text \<open>
  C9. The seed is queued and fetched as it is given: the first fetch is of the string
  \<open>u\<close> itself, and \<open>u\<close> is the member of \<open>queuedLinks\<close> that stands for the seed. A seed
  with a trailing slash or a fragment differs from its normalized form. Whenever the
  body of a crawled page \<open>p\<close> arrives (the seed page or any later one, with any number
  of anchors), and one of its links normalizes to an address \<open>v\<close> of the seed's origin
  that differs from \<open>u\<close> and has not been queued through another link, and the loop of
  lines 90 to 123 gets as far as this link, then \<open>v\<close> is a distinct address: after some
  further steps of worker 0 both \<open>u\<close> and \<open>v\<close> have been fetched and each has a recorded
  outcome.
\<close>

theorem seed_not_normalized:
  assumes "0 < n"
    and "crawl e u origin n sched = (g, ws)"
    and "ws ! 0 = AwaitText p origin r"
    and "resp_text r = Inr anchors"
    and "extract_links e p anchors = pre @ v # post"
    and "\<forall>l \<in> set pre. l \<in> queuedLinks g \<or> URL_origin e l \<noteq> None"
    and "URL_origin e v = Some origin"
    and "v \<noteq> u"
    and "v \<notin> queuedLinks g - {u}"
  shows "snd (crawl e u origin n []) ! 0 = AwaitFetch u origin
    \<and> u \<in> queuedLinks g
    \<and> (endsWith u ''/'' \<or> CHR ''#'' \<in> set u \<longrightarrow> normalizedSeed u \<noteq> u)
    \<and> (\<exists>k. fetched u (fst (crawl e u origin n (sched @ replicate k 0)))
           \<and> fetched v (fst (crawl e u origin n (sched @ replicate k 0))))"
proof -
  from assms(1) obtain m where n: "n = Suc m" by (cases n) auto
  let ?g0 = "seeded u origin\<lparr>queue := [], visited := {u}\<rparr>"
  have c: "crawl e u origin n s = run_schedule e s (?g0, AwaitFetch u origin # replicate m Done)"
    for s
    by (simp add: crawl_def n workers_seeded)
  have first: "snd (crawl e u origin n []) ! 0 = AwaitFetch u origin"
    by (simp add: c)
  from run_schedule_grows[of "(?g0, AwaitFetch u origin # replicate m Done)" e]
  have grows: "u \<in> visited (fst (crawl e u origin n s))"
    "u \<in> queuedLinks (fst (crawl e u origin n s))" for s
    by (auto simp: c seeded_def)
  from grows(2)[of sched] assms(2) have uq: "u \<in> queuedLinks g" by simp
  from crawl_is_sequential[of e u origin m sched] assms(2,3) n
  have ws: "ws = AwaitText p origin r # replicate m Done" by auto
  let ?g1 = "checkLinks_parsed e p origin r g"
  have s1: "step_worker e 0 (g, ws) = (?g1, LoopHead # replicate m Done)"
    by (simp add: ws step_worker_0)
  from assms(8,9) have "v \<notin> queuedLinks g" by simp
  from checkLinks_parsed_reaches[OF assms(4,5,6) this assms(7)]
  obtain q1 q2 where "queue ?g1 = q1 @ CheckLinks v origin # q2"
    by (auto dest: split_list)
  from queued_task_runs[OF this, of e "replicate m Done"]
  obtain k g' where
    s2: "run_schedule e (replicate k 0) (?g1, LoopHead # replicate m Done)
           = (g', LoopHead # replicate m Done)"
    and v: "v \<in> visited g'"
    by blast
  have "crawl e u origin n (sched @ replicate (Suc k) 0)
      = run_schedule e (replicate (Suc k) 0) (crawl e u origin n sched)"
    by (simp only: crawl_def workers_append)
  then have fin: "crawl e u origin n (sched @ replicate (Suc k) 0)
      = (g', LoopHead # replicate m Done)"
    by (simp add: assms(2) s1 s2)
  have "fetch_inv (crawl e u origin n (sched @ replicate (Suc k) 0))"
    unfolding crawl_def by (rule workers_fetch_inv)
  then have "\<forall>x \<in> visited g'. \<exists>c \<in> set (checkedLinks g'). url c = x"
    unfolding fin by (auto simp: fetch_inv_def)
  moreover have "u \<in> visited (fst (crawl e u origin n (sched @ replicate (Suc k) 0)))"
    by (rule grows(1))
  then have "u \<in> visited g'"
    unfolding fin by simp
  ultimately have "fetched u g'" "fetched v g'"
    using v by (auto simp: fetched_def)
  then have "\<exists>k. fetched u (fst (crawl e u origin n (sched @ replicate k 0)))
           \<and> fetched v (fst (crawl e u origin n (sched @ replicate k 0)))"
    using fin by (metis fst_conv)
  with first uq normalizedSeed_differs[of u] show ?thesis by blast
qed

theorem seed_not_normalized_witness:
  "normalizedSeed ''https://site.test/'' = ''https://site.test''
   \<and> extract_links site_root ''https://site.test/'' [Some ''/about'', Some ''/'']
       = [''https://site.test/about'', ''https://site.test'']
   \<and> queuedLinks (fst (crawl site_root ''https://site.test/'' ''https://site.test'' 25 [0]))
       = {''https://site.test/''}
   \<and> map url (checkedLinks (fst (crawl site_root ''https://site.test/'' ''https://site.test'' 25
         ([0] @ replicate 6 0))))
       = [''https://site.test/'', ''https://site.test/about'', ''https://site.test'']
   \<and> normalizedSeed ''https://site.test/page#top'' = ''https://site.test/page''
   \<and> extract_links site_fragment ''https://site.test/page#top''
         [Some ''#top'', Some ''/about'', Some ''/page'']
       = [''https://site.test/about'', ''https://site.test/page'']
   \<and> map url (checkedLinks (fst (crawl site_fragment ''https://site.test/page#top''
         ''https://site.test'' 25 ([0] @ replicate 6 0))))
       = [''https://site.test/page#top'', ''https://site.test/about'', ''https://site.test/page'']"
proof -
  let ?o = "''https://site.test''"
  let ?u = "''https://site.test/''"
  let ?r = "\<lparr>resp_status = 200, resp_location = None,
     resp_content_type = Some ''text/html; charset=utf-8'',
     resp_text = Inr [Some ''/about'', Some ''/'']\<rparr>"
  let ?c = "crawl site_root ?u ?o 25 [0]"
  have a1: "(0::nat) < 25" by simp
  have a2: "?c = (fst ?c, snd ?c)" by simp
  have a3: "snd ?c ! 0 = AwaitText ?u ?o ?r" by code_simp
  have a4: "resp_text ?r = Inr [Some ''/about'', Some ''/'']" by simp
  have a5: "extract_links site_root ?u [Some ''/about'', Some ''/'']
      = [''https://site.test/about''] @ ''https://site.test'' # []"
    by code_simp
  have a6: "\<forall>l \<in> set [''https://site.test/about''].
      l \<in> queuedLinks (fst ?c) \<or> URL_origin site_root l \<noteq> None"
    by code_simp
  have a7: "URL_origin site_root ''https://site.test'' = Some ?o" by code_simp
  have a8: "''https://site.test'' \<noteq> ?u" by simp
  have a9: "''https://site.test'' \<notin> queuedLinks (fst ?c) - {?u}" by code_simp
  let ?w = "''https://site.test/page#top''"
  let ?s = "\<lparr>resp_status = 200, resp_location = None,
     resp_content_type = Some ''text/html; charset=utf-8'',
     resp_text = Inr [Some ''#top'', Some ''/about'', Some ''/page'']\<rparr>"
  let ?d = "crawl site_fragment ?w ?o 25 [0]"
  have b2: "?d = (fst ?d, snd ?d)" by simp
  have b3: "snd ?d ! 0 = AwaitText ?w ?o ?s" by code_simp
  have b4: "resp_text ?s = Inr [Some ''#top'', Some ''/about'', Some ''/page'']" by simp
  have b5: "extract_links site_fragment ?w [Some ''#top'', Some ''/about'', Some ''/page'']
      = [''https://site.test/about''] @ ''https://site.test/page'' # []"
    by code_simp
  have b6: "\<forall>l \<in> set [''https://site.test/about''].
      l \<in> queuedLinks (fst ?d) \<or> URL_origin site_fragment l \<noteq> None"
    by code_simp
  have b7: "URL_origin site_fragment ''https://site.test/page'' = Some ?o" by code_simp
  have b8: "''https://site.test/page'' \<noteq> ?w" by simp
  have b9: "''https://site.test/page'' \<notin> queuedLinks (fst ?d) - {?w}" by code_simp
  have n: "normalizedSeed ?u = ''https://site.test''"
    "normalizedSeed ?w = ''https://site.test/page''"
    by code_simp+
  have q: "queuedLinks (fst ?c) = {?u}" by code_simp
  have k: "map url (checkedLinks (fst (crawl site_root ?u ?o 25 ([0] @ replicate 6 0))))
       = [?u, ''https://site.test/about'', ''https://site.test'']"
    "map url (checkedLinks (fst (crawl site_fragment ?w ?o 25 ([0] @ replicate 6 0))))
       = [?w, ''https://site.test/about'', ''https://site.test/page'']"
    by code_simp+
  from seed_not_normalized[OF a1 a2 a3 a4 a5 a6 a7 a8 a9]
       seed_not_normalized[OF a1 b2 b3 b4 b5 b6 b7 b8 b9] a5 b5 n q k
  show ?thesis by simp
qed

section \<open>Exit status and report\<close>

lemma includes_str_empty: "includes_str s []"
  by (cases s) (simp_all add: startsWith_def)

lemma includes_str_prefix: "includes_str (p @ b) p"
proof (cases "p @ b")
  case Nil
  then show ?thesis by simp
next
  case (Cons c cs)
  have "startsWith (p @ b) p" by (simp add: startsWith_def)
  with Cons show ?thesis by simp
qed

lemma includes_str_infix: "includes_str (a @ p @ b) p"
proof (induction a)
  case Nil
  show ?case by (simp add: includes_str_prefix)
next
  case (Cons x a)
  then show ?case by simp
qed

lemma dead_line_url: "includes_str (dead_line d) (url d)"
  unfolding dead_line_def by (rule includes_str_infix)

lemma dead_line_status: "includes_str (dead_line d) (status_text (status d))"
proof -
  have "dead_line d = (''- '' @ url d @ '' (Status: '') @ status_text (status d)
      @ ((if truthy (error d) then '', Error: '' @ the (error d) else []) @ '')'')"
    by (simp add: dead_line_def)
  then show ?thesis by (simp only: includes_str_infix)
qed

lemma dead_line_error: "error d = Some m \<Longrightarrow> includes_str (dead_line d) m"
proof (cases "m = []")
  case True
  then show ?thesis by (simp add: includes_str_empty)
next
  case False
  assume e: "error d = Some m"
  with False have "dead_line d
      = (''- '' @ url d @ '' (Status: '' @ status_text (status d) @ '', Error: '') @ m @ '')''"
    by (simp add: dead_line_def truthy_def)
  then show ?thesis by (simp only: includes_str_infix)
qed

text \<open>
  C8. Without a seed URL the process exits 1 with the usage message, whatever the
  environment and the schedule: nothing has been queued or fetched. A run completes when
  \<open>processQueue\<close> returns and every worker has ended; the process then exits, with 0
  exactly when the dead-link list is empty, and otherwise with 1 and an error output that
  is a heading followed by one line for each dead link, in order. The line of a dead link
  shows its URL, its status and its error message when it has one. A run that
  \<open>Array.from\<close> ends with an error does not complete: it exits 1 through the handler of
  lines 221 to 224.
\<close>

theorem exit_status:
  "(\<not> truthy (inputURL args) \<longrightarrow>
      main e args sched
        = Some \<lparr>exit_code = 1, stdout = [], stderr = [usage], unexpected = None\<rparr>)
   \<and> (truthy (inputURL args) \<and> URL_origin e (the (inputURL args)) = Some origin
        \<and> processQueue e (concurrentRequests args) sched (seeded (the (inputURL args)) origin)
            = Inr (g, ws)
        \<longrightarrow> (all_done ws \<longleftrightarrow> main e args sched \<noteq> None)
          \<and> (\<forall>x. main e args sched = Some x \<longrightarrow>
                (exit_code x = 0 \<longleftrightarrow> deadLinks g = [])
                \<and> (exit_code x \<noteq> 0 \<longrightarrow> exit_code x = 1
                     \<and> stderr x = ''Dead links found:'' # map dead_line (deadLinks g))
                \<and> unexpected x = None))
   \<and> (truthy (inputURL args) \<and> URL_origin e (the (inputURL args)) = Some origin
        \<and> processQueue e (concurrentRequests args) sched (seeded (the (inputURL args)) origin)
            = Inl err
        \<longrightarrow> (\<exists>out. main e args sched
               = Some \<lparr>exit_code = 1, stdout = out,
                       stderr = [''An unexpected error occurred:''],
                       unexpected = Some err\<rparr>))
   \<and> includes_str (dead_line d) (url d)
   \<and> includes_str (dead_line d) (status_text (status d))
   \<and> (\<forall>m. error d = Some m \<longrightarrow> includes_str (dead_line d) m)"
proof -
  have a: "\<not> truthy (inputURL args) \<Longrightarrow>
      main e args sched
        = Some \<lparr>exit_code = 1, stdout = [], stderr = [usage], unexpected = None\<rparr>"
    by (simp add: main_def)
  have b: "(all_done ws \<longleftrightarrow> main e args sched \<noteq> None)
          \<and> (\<forall>x. main e args sched = Some x \<longrightarrow>
                (exit_code x = 0 \<longleftrightarrow> deadLinks g = [])
                \<and> (exit_code x \<noteq> 0 \<longrightarrow> exit_code x = 1
                     \<and> stderr x = ''Dead links found:'' # map dead_line (deadLinks g))
                \<and> unexpected x = None)"
    if "truthy (inputURL args)" "URL_origin e (the (inputURL args)) = Some origin"
       "processQueue e (concurrentRequests args) sched (seeded (the (inputURL args)) origin)
            = Inr (g, ws)"
    using that
    by (auto simp: main_def report_def Let_def split: if_splits)
  have c: "\<exists>out. main e args sched
               = Some \<lparr>exit_code = 1, stdout = out,
                       stderr = [''An unexpected error occurred:''],
                       unexpected = Some err\<rparr>"
    if "truthy (inputURL args)" "URL_origin e (the (inputURL args)) = Some origin"
       "processQueue e (concurrentRequests args) sched (seeded (the (inputURL args)) origin)
            = Inl err"
    using that by (simp add: main_def Let_def)
  from a b c dead_line_url dead_line_status dead_line_error show ?thesis by blast
qed

theorem exit_status_witness:
  "main site_test [''-v''] []
     = Some \<lparr>exit_code = 1, stdout = [], stderr = [usage], unexpected = None\<rparr>
   \<and> main site_test [''https://site.test/'', ''--concurrent=2'']
        [0, 0, 0, 0, 0, 0, 0, 0, 0, 0, 0] =
      Some \<lparr>exit_code = 1,
             stdout = [''Starting to check links on: https://site.test/'' @ [CHR 0x0A],
                       [CHR 0x0A]],
             stderr = [''Dead links found:'', ''- https://site.test/missing (Status: 404)''],
             unexpected = None\<rparr>
   \<and> deadLinks (fst (crawl site_test ''https://site.test/'' ''https://site.test'' 2
        [0, 0, 0, 0, 0, 0, 0, 0, 0, 0, 0])) \<noteq> []
   \<and> main site_test [''https://site.test/'', ''--concurrent=4294967296''] [] =
      Some \<lparr>exit_code = 1,
             stdout = [''Starting to check links on: https://site.test/'' @ [CHR 0x0A]],
             stderr = [''An unexpected error occurred:''],
             unexpected = Some (RangeError ''Invalid array length'')\<rparr>
   \<and> includes_str (dead_line \<lparr>url = ''https://down.test/x'', status = FETCH_ERROR,
        error = Some ''fetch failed''\<rparr>) ''fetch failed''"
proof -
  let ?args = "[''https://site.test/'', ''--concurrent=2'']"
  let ?big = "[''https://site.test/'', ''--concurrent=4294967296'']"
  let ?u = "''https://site.test/''"
  let ?o = "''https://site.test''"
  let ?sched = "[0, 0, 0, 0, 0, 0, 0, 0, 0, 0, 0] :: nat list"
  let ?c = "crawl site_test ?u ?o 2 ?sched"
  let ?x = "\<lparr>exit_code = 1,
             stdout = [''Starting to check links on: https://site.test/'' @ [CHR 0x0A],
                       [CHR 0x0A]],
             stderr = [''Dead links found:'', ''- https://site.test/missing (Status: 404)''],
             unexpected = None\<rparr>"
  let ?d = "\<lparr>url = ''https://down.test/x'', status = FETCH_ERROR,
        error = Some ''fetch failed''\<rparr>"
  have u: "\<not> truthy (inputURL [''-v''])" by code_simp
  have i: "truthy (inputURL ?args)" "the (inputURL ?args) = ?u"
    "truthy (inputURL ?big)" "the (inputURL ?big) = ?u"
    by code_simp+
  have o: "URL_origin site_test ?u = Some ?o"
    by code_simp
  have n: "array_length (concurrentRequests ?args) = Some 2"
    "array_length (concurrentRequests ?big) = None"
    by code_simp+
  have p: "processQueue site_test (concurrentRequests ?args) ?sched (seeded ?u ?o)
      = Inr (fst ?c, snd ?c)"
    by (simp add: processQueue_def n crawl_def)
  have q: "processQueue site_test (concurrentRequests ?big) [] (seeded ?u ?o)
      = Inl (RangeError ''Invalid array length'')"
    by (simp add: processQueue_def n)
  have m: "main site_test ?args ?sched = Some ?x"
    by code_simp
  have l: "deadLinks (fst ?c) \<noteq> []"
    by code_simp
  have b: "main site_test ?big [] =
      Some \<lparr>exit_code = 1,
             stdout = [''Starting to check links on: https://site.test/'' @ [CHR 0x0A]],
             stderr = [''An unexpected error occurred:''],
             unexpected = Some (RangeError ''Invalid array length'')\<rparr>"
    by code_simp
  have e: "error ?d = Some ''fetch failed''" by simp
  from u i o p q m l b e
    exit_status[where args = "[''-v'']" and e = site_test and sched = "[]" and d = ?d]
    exit_status[where args = ?args and e = site_test and sched = ?sched
      and origin = ?o and g = "fst ?c" and ws = "snd ?c" and d = ?d]
    exit_status[where args = ?big and e = site_test and sched = "[]"
      and origin = ?o and err = "RangeError ''Invalid array length''" and d = ?d]
  show ?thesis by simp
qed

end
